theory Spec2Isabelle
  imports Main "HOL-Library.Sublist"
begin

section \<open>Strings and the platform's string operations\<close>

text \<open>
  The root route of the storefront (\<open>app/root.tsx\<close>) is embedded function by function.
  A JavaScript string is modelled as a \<open>string\<close> holding its UTF-8 bytes. Every
  character the code inspects (\<open>/\<close>, \<open>-\<close>, \<open>?\<close>, the letters of a locale, the key
  \<open>color\<close>) is ASCII, one byte, and string equality is equality of the byte lists.
\<close>

definition isAsciiLetter :: "char \<Rightarrow> bool" where
  \<comment> \<open>the class \<open>[a-z]\<close> under the \<open>i\<close> flag (no \<open>u\<close> flag): A-Z and a-z only\<close>
  "isAsciiLetter c =
     (let n = (of_char c :: nat) in (65 \<le> n \<and> n \<le> 90) \<or> (97 \<le> n \<and> n \<le> 122))"

definition isAsciiDigit :: "char \<Rightarrow> bool" where
  "isAsciiDigit c = (let n = (of_char c :: nat) in 48 \<le> n \<and> n \<le> 57)"

text \<open>
  \<open>String.prototype.replace(pattern, replacement)\<close> with a string pattern: the first
  occurrence of the pattern is replaced, the rest of the subject is kept. The
  replacement used by the code, \<open>'/'\<close>, has no \<open>$\<close> escapes.
\<close>

fun replaceFirst :: "string \<Rightarrow> string \<Rightarrow> string \<Rightarrow> string" where
  "replaceFirst [] pat rep = (if pat = [] then rep else [])"
| "replaceFirst (c # cs) pat rep =
     (if prefix pat (c # cs) then rep @ drop (length pat) (c # cs)
      else c # replaceFirst cs pat rep)"

section \<open>The URL object\<close>

text \<open>
  The attributes of the platform's \<open>URL\<close> class that the code reads. \<open>searchParams\<close>
  is the decoded list of key/value pairs, in the order of the query string, as
  \<open>Array.from(url.searchParams)\<close> yields it; \<open>toString()\<close> returns \<open>href\<close>.
\<close>

record URL =
  href :: string
  origin :: string
  host :: string
  pathname :: string
  searchParams :: "(string \<times> string) list"

definition toString :: "URL \<Rightarrow> string" where
  "toString u = href u"

text \<open>
  What the URL class guarantees of its attributes and the theorems below rely on: the
  origin and the pathname hold neither \<open>?\<close> nor \<open>#\<close> (the parser ends the path there).
\<close>

definition wellFormedURL :: "URL \<Rightarrow> bool" where
  "wellFormedURL u =
     (CHR ''?'' \<notin> set (origin u) \<and> CHR ''#'' \<notin> set (origin u) \<and>
      CHR ''?'' \<notin> set (pathname u) \<and> CHR ''#'' \<notin> set (pathname u))"

section \<open>\<open>URLSearchParams\<close>: the urlencoded serializer\<close>

text \<open>
  \<open>new URLSearchParams(pairs).toString()\<close> is the platform's
  \<open>application/x-www-form-urlencoded\<close> serializer: a space becomes \<open>+\<close>, the bytes of
  ASCII letters and digits and of \<open>* - . _\<close> stay, every other byte becomes \<open>%XX\<close> with
  upper-case hexadecimal digits; a pair is \<open>name=value\<close>, pairs are joined by \<open>&\<close>.
\<close>

definition isUrlencodedSafe :: "char \<Rightarrow> bool" where
  "isUrlencodedSafe c =
     (isAsciiLetter c \<or> isAsciiDigit c \<or> c = CHR ''*'' \<or> c = CHR ''-'' \<or> c = CHR ''.'' \<or> c = CHR ''_'')"

definition hexDigit :: "nat \<Rightarrow> char" where
  "hexDigit n = (if n < 10 then char_of (48 + n) else char_of (55 + n))"

definition percentEncodeByte :: "char \<Rightarrow> string" where
  "percentEncodeByte c =
     [CHR ''%'', hexDigit ((of_char c :: nat) div 16), hexDigit ((of_char c :: nat) mod 16)]"

definition urlencodeByte :: "char \<Rightarrow> string" where
  "urlencodeByte c =
     (if c = CHR '' '' then ''+''
      else if isUrlencodedSafe c then [c]
      else percentEncodeByte c)"

definition urlencode :: "string \<Rightarrow> string" where
  "urlencode s = concat (map urlencodeByte s)"

fun joinWith :: "string \<Rightarrow> string list \<Rightarrow> string" where
  "joinWith sep [] = []"
| "joinWith sep [x] = x"
| "joinWith sep (x # y # ys) = x @ sep @ joinWith sep (y # ys)"

definition encodePair :: "string \<times> string \<Rightarrow> string" where
  "encodePair kv = urlencode (fst kv) @ ''='' @ urlencode (snd kv)"

definition serializeUrlencoded :: "(string \<times> string) list \<Rightarrow> string" where
  "serializeUrlencoded ps = joinWith ''&'' (map encodePair ps)"

section \<open>Parameter filter, locale stripping, canonical URL, hreflangs\<close>

text \<open>\<open>cleanParams\<close> (lines 34-40): the pairs whose key the whitelist includes, serialized.\<close>

definition whitelistedParams :: "string list" where
  "whitelistedParams = [''color'']"

definition cleanParams :: "URL \<Rightarrow> string" where
  "cleanParams u =
     (let params = filter (\<lambda>(key, _). key \<in> set whitelistedParams) (searchParams u)
      in serializeUrlencoded params)"

text \<open>
  \<open>cleanLocaleFromPathname\<close> (root.tsx, lines 42-45).
  \<open>/^\/([a-z]{2})-([a-z]{2})(\/|$)/i.exec(pathname)\<close>: the result is the matched text
  (\<open>localeMatch[0]\<close>), or \<open>None\<close> for \<open>null\<close>. The pattern is anchored at the start; the
  last group takes a slash, or else the end of the input.
\<close>

fun localeMatch :: "string \<Rightarrow> string option" where
  "localeMatch (s # a # b # h # c # d # rest) =
     (if s = CHR ''/'' \<and> isAsciiLetter a \<and> isAsciiLetter b \<and> h = CHR ''-'' \<and>
         isAsciiLetter c \<and> isAsciiLetter d
      then (case rest of
              [] \<Rightarrow> Some [s, a, b, h, c, d]
            | e # _ \<Rightarrow> if e = CHR ''/'' then Some [s, a, b, h, c, d, e] else None)
      else None)"
| "localeMatch _ = None"

definition cleanLocaleFromPathname :: "URL \<Rightarrow> string" where
  "cleanLocaleFromPathname u =
     (case localeMatch (pathname u) of
        Some m \<Rightarrow> replaceFirst (pathname u) m ''/''
      | None \<Rightarrow> pathname u)"

text \<open>\<open>createHreflangs\<close> (lines 47-57) and \<open>createCanonicalUrl\<close> (lines 59-65).\<close>

record hreflang =
  language :: string
  url :: string
  default_flag :: bool

definition createHreflangs :: "URL \<Rightarrow> hreflang list" where
  "createHreflangs u =
     (let paramString = cleanParams u;
          pathname' = cleanLocaleFromPathname u
      in [\<lparr>language = ''en-us'',
           url = origin u @ pathname' @ (if paramString \<noteq> [] then ''?'' @ paramString else []),
           default_flag = True\<rparr>])"

definition createCanonicalUrl :: "URL \<Rightarrow> string" where
  "createCanonicalUrl u =
     (let paramString = cleanParams u;
          pathname' = cleanLocaleFromPathname u
      in if paramString \<noteq> [] then origin u @ pathname' @ ''?'' @ paramString
         else origin u @ pathname')"

section \<open>SEO descriptor\<close>

text \<open>
  \<open>rootSeo\<close> (lines 67-108) receives the request's URL as a string and parses it with \<open>new URL(url)\<close>;
  the model starts from the parsed object \<open>urlObject\<close>. Field names that several
  objects share carry the object's name.
\<close>

record media =
  media_type :: string
  media_url :: string
  height :: nat
  width :: nat
  altText :: string

record robots =
  noFollow :: bool

record jsonLd =
  jsonLd_context :: string
  jsonLd_type :: string
  jsonLd_id :: string
  name :: string
  logo :: string
  sameAs :: "string list"
  jsonLd_url :: string

record seo =
  title :: string
  description :: string
  titleTemplate :: string
  media :: media
  handle :: string
  seo_url :: string
  robots :: robots
  alternates :: "hreflang list"
  jsonLd :: jsonLd

definition rootSeo :: "URL \<Rightarrow> seo" where
  "rootSeo urlObject =
     (let noIndex = (host urlObject = ''dev.honeylove.com'' \<or>
                     host urlObject = ''staging.honeylove.com'');
          canonicalUrl = createCanonicalUrl urlObject;
          hreflangs = createHreflangs urlObject
      in \<lparr>title = ''Honeylove'' @ [CHR 0xC2, CHR 0xAE, CHR '' '', CHR 0xC2, CHR 0xB7] @
                    '' Where function meets fashion'',
          description = ''Honeylove makes stylish garments with built-in shaping power, applying technical and artistic products for customers of all shapes, sizes, and backgrounds.'',
          titleTemplate = ''%s'',
          media = \<lparr>media_type = ''image'', media_url = ''og_homepage_480x.png'',
                    height = 252, width = 480, altText = ''Models in a grid''\<rparr>,
          handle = ''@gethoneylove'',
          seo_url = canonicalUrl,
          robots = \<lparr>noFollow = noIndex\<rparr>,
          alternates = hreflangs,
          jsonLd = \<lparr>jsonLd_context = ''https://schema.org'',
                     jsonLd_type = ''Organization'',
                     jsonLd_id = ''https://www.honeylove.com/'',
                     name = ''Honeylove'',
                     logo = ''og_homepage_480x.png'',
                     sameAs = [''https://twitter.com/gethoneylove'',
                               ''https://facebook.com/GetHoneylove'',
                               ''https://www.instagram.com/honeylove/'',
                               ''https://youtube.com/@gethoneylove'',
                               ''https://tiktok.com/@honeylove''],
                     jsonLd_url = canonicalUrl\<rparr>\<rparr>)"

section \<open>Revalidation\<close>

text \<open>
  \<open>shouldRevalidate\<close> (lines 113-129). \<open>formMethod\<close> is optional: \<open>None\<close> is \<open>undefined\<close>. The test \<open>formMethod && \<dots>\<close> asks for
  a defined, non-empty string.
\<close>

record revalidateArgs =
  formMethod :: "string option"
  currentUrl :: URL
  nextUrl :: URL

definition shouldRevalidate :: "revalidateArgs \<Rightarrow> bool" where
  "shouldRevalidate a =
     (if (case formMethod a of None \<Rightarrow> False | Some m \<Rightarrow> m \<noteq> [] \<and> m \<noteq> ''GET'') then True
      else if toString (currentUrl a) = toString (nextUrl a) then True
      else False)"

section \<open>Values, promises and the console\<close>

text \<open>
  Data that the code only passes on (navigation menus, the cart, thrown errors) are
  JavaScript values. A promise is modelled by how it settles: fulfilled with a value,
  rejected with a reason, or never settled. The console is the list of the values
  passed to \<open>console.error\<close>, oldest first.
\<close>

datatype jsval = Undefined | Null | Bool bool | Num int | Str string | Obj "(string \<times> jsval) list"

fun truthy :: "jsval \<Rightarrow> bool" where
  "truthy Undefined = False"
| "truthy Null = False"
| "truthy (Bool b) = b"
| "truthy (Num n) = (n \<noteq> 0)"
| "truthy (Str s) = (s \<noteq> [])"
| "truthy (Obj fs) = True"

text \<open>\<open>v?.k\<close>: the property of an object, \<open>undefined\<close> when absent or when \<open>v\<close> has no properties.\<close>

fun optProp :: "jsval \<Rightarrow> string \<Rightarrow> jsval" where
  "optProp (Obj fs) k = (case map_of fs k of Some v \<Rightarrow> v | None \<Rightarrow> Undefined)"
| "optProp _ k = Undefined"

text \<open>\<open>a ?? b\<close>\<close>

definition nullish :: "jsval \<Rightarrow> jsval \<Rightarrow> jsval" where
  "nullish a b = (if a = Undefined \<or> a = Null then b else a)"

datatype 'a promise = Fulfilled 'a | Rejected jsval | Pending

type_synonym console = "jsval list"

text \<open>The value a promise is fulfilled with, if it is fulfilled.\<close>

definition settledValue :: "'a promise \<Rightarrow> 'a option" where
  "settledValue p = (case p of Fulfilled v \<Rightarrow> Some v | _ \<Rightarrow> None)"


text \<open>\<open>await p\<close> followed by the rest of an async function.\<close>

definition promiseThen :: "'a promise \<Rightarrow> ('a \<Rightarrow> 'b promise) \<Rightarrow> 'b promise" where
  "promiseThen p f = (case p of Fulfilled v \<Rightarrow> f v | Rejected e \<Rightarrow> Rejected e | Pending \<Rightarrow> Pending)"

text \<open>\<open>p.catch(handler)\<close>, the handler acting on the console.\<close>

definition promiseCatch ::
  "'a promise \<Rightarrow> (jsval \<Rightarrow> console \<Rightarrow> 'a \<times> console) \<Rightarrow> console \<Rightarrow> 'a promise \<times> console" where
  "promiseCatch p handler c =
     (case p of
        Rejected e \<Rightarrow> (let (v, c') = handler e c in (Fulfilled v, c'))
      | _ \<Rightarrow> (p, c))"

text \<open>\<open>Promise.all\<close>; the code passes a single promise.\<close>

fun promiseAll :: "'a promise list \<Rightarrow> 'a list promise" where
  "promiseAll [] = Fulfilled []"
| "promiseAll (p # ps) =
     (case p of
        Rejected e \<Rightarrow> Rejected e
      | Pending \<Rightarrow> (case promiseAll ps of Rejected e \<Rightarrow> Rejected e | _ \<Rightarrow> Pending)
      | Fulfilled v \<Rightarrow>
          (case promiseAll ps of
             Fulfilled vs \<Rightarrow> Fulfilled (v # vs)
           | Rejected e \<Rightarrow> Rejected e
           | Pending \<Rightarrow> Pending))"

definition consoleError :: "jsval \<Rightarrow> console \<Rightarrow> console" where
  "consoleError error c = c @ [error]"

section \<open>Loader\<close>

text \<open>
  \<open>loader\<close> (lines 148-176), \<open>loadCriticalData\<close> (lines 182-198) and \<open>loadDeferredData\<close>
  (lines 205-226). The collaborators of the loader are fields of its arguments: \<open>storefront.query\<close> gives,
  for a query document and its options, the promise of the result; \<open>cart.get()\<close> and
  \<open>customerAccount.isLoggedIn()\<close> give promises. \<open>HEADER_QUERY\<close> and \<open>FOOTER_QUERY\<close> are the
  two documents imported from \<open>~/lib/fragments\<close>. \<open>getShopAnalytics\<close> is a library
  function and a parameter of the loader. Names that are keywords of the prover carry a
  prime.
\<close>

datatype query = HEADER_QUERY | FOOTER_QUERY

datatype cachePolicy = CacheLong

record queryOptions =
  cache :: cachePolicy
  variables :: "(string \<times> string) list"

record storefront =
  query :: "query \<Rightarrow> queryOptions \<Rightarrow> jsval promise"

record env =
  PUBLIC_STORE_DOMAIN :: string
  PUBLIC_STOREFRONT_ID :: string
  PUBLIC_CHECKOUT_DOMAIN :: string
  PUBLIC_STOREFRONT_API_TOKEN :: string

record cart =
  get :: "jsval promise"

record customerAccount =
  isLoggedIn :: "jsval promise"

record appContext =
  storefront :: storefront
  customerAccount :: customerAccount
  cart :: cart
  env :: env

record request =
  request_url :: URL

record loaderArgs =
  request :: request
  context' :: appContext

record criticalData =
  header :: jsval

record deferredData =
  deferred_cart :: "jsval promise"
  deferred_isLoggedIn :: "jsval promise"
  footer :: "jsval promise"

record consent =
  checkoutDomain :: string
  storefrontAccessToken :: string

record rootData =
  data_cart :: "jsval promise"
  data_isLoggedIn :: "jsval promise"
  data_footer :: "jsval promise"
  data_header :: jsval
  data_seo :: seo
  publicStoreDomain :: string
  shop :: "jsval promise"
  data_consent :: consent

text \<open>The two calls of \<open>storefront.query\<close>, named after what they fetch.\<close>

definition headerFetch :: "loaderArgs \<Rightarrow> jsval promise" where
  "headerFetch args =
     query (storefront (context' args)) HEADER_QUERY
       \<lparr>cache = CacheLong, variables = [(''headerMenuHandle'', ''main-menu'')]\<rparr>"

definition footerFetch :: "loaderArgs \<Rightarrow> jsval promise" where
  "footerFetch args =
     query (storefront (context' args)) FOOTER_QUERY
       \<lparr>cache = CacheLong, variables = [(''footerMenuHandle'', ''footer'')]\<rparr>"

definition loadCriticalData :: "loaderArgs \<Rightarrow> criticalData promise" where
  "loadCriticalData args =
     promiseThen (promiseAll [headerFetch args])
       (\<lambda>results. case results of
            header' # _ \<Rightarrow> Fulfilled \<lparr>header = header'\<rparr>
          | [] \<Rightarrow> Fulfilled \<lparr>header = Undefined\<rparr>)"

definition loadDeferredData :: "loaderArgs \<Rightarrow> console \<Rightarrow> deferredData \<times> console" where
  "loadDeferredData args c =
     (let (footer', c') =
            promiseCatch (footerFetch args) (\<lambda>error k. (Null, consoleError error k)) c
      in (\<lparr>deferred_cart = get (cart (context' args)),
           deferred_isLoggedIn = isLoggedIn (customerAccount (context' args)),
           footer = footer'\<rparr>, c'))"

text \<open>
  \<open>defer\<close> is the framework's, not this repository's: it returns the data with every
  promise field replaced by a tracked promise (\<open>trackPromise\<close>, keyed by the field's
  name), and keeps the other fields. A tracked promise settles through \<open>onSettle\<close>: as the
  original does, except that a promise fulfilled or rejected with \<open>undefined\<close> is rejected
  with a new \<open>Error\<close>. An \<open>Error\<close> instance is an object with a \<open>message\<close>. Aborting the
  request is not modelled.
\<close>

definition newError :: "string \<Rightarrow> jsval" where
  "newError msg = Obj [(''message'', Str msg)]"

definition undefinedError :: "string \<Rightarrow> jsval" where
  "undefinedError key =
     newError (''Deferred data for key '' @ [CHR 0x22] @ key @ [CHR 0x22] @
               '' resolved/rejected with '' @ [CHR 0x60] @ ''undefined'' @ [CHR 0x60] @
               '', you must resolve/reject with a value or '' @ [CHR 0x60] @ ''null'' @
               [CHR 0x60] @ ''.'')"

definition onSettle :: "string \<Rightarrow> jsval \<Rightarrow> jsval \<Rightarrow> jsval promise" where
  "onSettle key error result =
     (if error = Undefined \<and> result = Undefined then Rejected (undefinedError key)
      else if result = Undefined then Rejected error
      else Fulfilled result)"

definition trackPromise :: "string \<Rightarrow> jsval promise \<Rightarrow> jsval promise" where
  "trackPromise key p =
     (case p of
        Fulfilled result \<Rightarrow> onSettle key Undefined result
      | Rejected error \<Rightarrow> onSettle key error Undefined
      | Pending \<Rightarrow> Pending)"

definition defer' :: "rootData \<Rightarrow> rootData" where
  "defer' d =
     d\<lparr>data_cart := trackPromise ''cart'' (data_cart d),
       data_isLoggedIn := trackPromise ''isLoggedIn'' (data_isLoggedIn d),
       data_footer := trackPromise ''footer'' (data_footer d),
       shop := trackPromise ''shop'' (shop d)\<rparr>"

definition loader ::
  "(storefront \<Rightarrow> string \<Rightarrow> jsval promise) \<Rightarrow> loaderArgs \<Rightarrow> console \<Rightarrow> rootData promise \<times> console" where
  "loader getShopAnalytics args c =
     (let (deferredData, c') = loadDeferredData args c
      in (promiseThen (loadCriticalData args)
            (\<lambda>criticalData.
               let seo' = rootSeo (request_url (request args));
                   storefront' = storefront (context' args);
                   env' = env (context' args)
               in Fulfilled (defer'
                    \<lparr>data_cart = deferred_cart deferredData,
                     data_isLoggedIn = deferred_isLoggedIn deferredData,
                     data_footer = footer deferredData,
                     data_header = header criticalData,
                     data_seo = seo',
                     publicStoreDomain = PUBLIC_STORE_DOMAIN env',
                     shop = getShopAnalytics storefront' (PUBLIC_STOREFRONT_ID env'),
                     data_consent =
                       \<lparr>checkoutDomain = PUBLIC_CHECKOUT_DOMAIN env',
                        storefrontAccessToken = PUBLIC_STOREFRONT_API_TOKEN env'\<rparr>\<rparr>)),
          c'))"

section \<open>Error boundary\<close>

text \<open>
  \<open>ErrorBoundary\<close> (lines 278-301). The value of \<open>useRouteError()\<close> is one of three shapes: a route error response
  (\<open>isRouteErrorResponse\<close>), an \<open>Error\<close> instance, or anything else.
  \<open>errorStatusAndMessage\<close> is the value of the two local variables at the \<open>return\<close>;
  \<open>ErrorBoundary\<close> is the element returned.
\<close>

datatype routeError =
    ErrorResponse (status: int) (data: jsval)
  | ErrorInstance (message: string)
  | OtherError jsval

fun isRouteErrorResponse :: "routeError \<Rightarrow> bool" where
  "isRouteErrorResponse (ErrorResponse st d) = True"
| "isRouteErrorResponse _ = False"

fun instanceofError :: "routeError \<Rightarrow> bool" where
  "instanceofError (ErrorInstance m) = True"
| "instanceofError _ = False"

definition errorStatusAndMessage :: "routeError \<Rightarrow> int \<times> jsval" where
  "errorStatusAndMessage error =
     (let errorMessage = Str ''Unknown error'';
          errorStatus = 500
      in if isRouteErrorResponse error
         then (status error, nullish (optProp (data error) ''message'') (data error))
         else if instanceofError error
         then (errorStatus, Str (message error))
         else (errorStatus, errorMessage))"

datatype jsx = Elem string "(string \<times> string) list" "jsx list" | Expr jsval

definition ErrorBoundary :: "routeError \<Rightarrow> jsx" where
  "ErrorBoundary error =
     (let (errorStatus, errorMessage) = errorStatusAndMessage error
      in Elem ''div'' [(''className'', ''route-error'')]
           [Elem ''h1'' [] [Expr (Str ''Oops'')],
            Elem ''h2'' [] [Expr (Num errorStatus)],
            if truthy errorMessage
            then Elem ''fieldset'' [] [Elem ''pre'' [] [Expr errorMessage]]
            else Expr errorMessage])"

section \<open>Reading a URL string back\<close>

text \<open>
  The specification speaks of the path and the query parameters that a URL string
  contains. These are read off the string as the URL standard does: the fragment starts
  at the first \<open>#\<close>, the query at the first \<open>?\<close> before it, the path runs from the end of
  the origin to the query; the query is parsed by the platform's
  \<open>application/x-www-form-urlencoded\<close> parser (split at \<open>&\<close>, empty pieces skipped, name
  and value split at the first \<open>=\<close>, \<open>+\<close> read as a space, \<open>%XX\<close> decoded).
\<close>

fun splitOn :: "char \<Rightarrow> string \<Rightarrow> string list" where
  "splitOn sep [] = [[]]"
| "splitOn sep (c # cs) =
     (if c = sep then [] # splitOn sep cs
      else (case splitOn sep cs of
              [] \<Rightarrow> [[c]]
            | x # xs \<Rightarrow> (c # x) # xs))"

definition isHexDigit :: "char \<Rightarrow> bool" where
  "isHexDigit c =
     (let n = (of_char c :: nat)
      in (48 \<le> n \<and> n \<le> 57) \<or> (65 \<le> n \<and> n \<le> 70) \<or> (97 \<le> n \<and> n \<le> 102))"

definition hexValue :: "char \<Rightarrow> nat" where
  "hexValue c =
     (let n = (of_char c :: nat)
      in if n \<le> 57 then n - 48 else if n \<le> 70 then n - 55 else n - 87)"

fun percentDecode :: "string \<Rightarrow> string" where
  "percentDecode (p # h # l # r) =
     (if p = CHR ''%'' \<and> isHexDigit h \<and> isHexDigit l
      then char_of (16 * hexValue h + hexValue l) # percentDecode r
      else p # percentDecode (h # l # r))"
| "percentDecode (c # cs) = c # percentDecode cs"
| "percentDecode [] = []"

definition plusToSpace :: "char \<Rightarrow> char" where
  "plusToSpace c = (if c = CHR ''+'' then CHR '' '' else c)"

definition urldecode :: "string \<Rightarrow> string" where
  "urldecode s = percentDecode (map plusToSpace s)"

definition decodePair :: "string \<Rightarrow> string \<times> string" where
  "decodePair seq =
     (urldecode (takeWhile (\<lambda>c. c \<noteq> CHR ''='') seq),
      urldecode (drop 1 (dropWhile (\<lambda>c. c \<noteq> CHR ''='') seq)))"

definition parseUrlencoded :: "string \<Rightarrow> (string \<times> string) list" where
  "parseUrlencoded s = map decodePair (filter (\<lambda>seq. seq \<noteq> []) (splitOn CHR ''&'' s))"

definition urlQuery :: "string \<Rightarrow> string" where
  "urlQuery s = drop 1 (dropWhile (\<lambda>c. c \<noteq> CHR ''?'') (takeWhile (\<lambda>c. c \<noteq> CHR ''#'') s))"

definition urlPath :: "string \<Rightarrow> string \<Rightarrow> string" where
  "urlPath org s = takeWhile (\<lambda>c. c \<noteq> CHR ''?'' \<and> c \<noteq> CHR ''#'') (drop (length org) s)"

definition urlQueryParams :: "string \<Rightarrow> (string \<times> string) list" where
  "urlQueryParams s = parseUrlencoded (urlQuery s)"

text \<open>
  The specification's wording of a path that begins with a locale segment: a slash, two
  letters, a dash, two letters, and then the end of the path or another slash.
\<close>

definition beginsWithLocaleSegment :: "string \<Rightarrow> bool" where
  "beginsWithLocaleSegment p =
     (6 \<le> length p \<and> p ! 0 = CHR ''/'' \<and> isAsciiLetter (p ! 1) \<and> isAsciiLetter (p ! 2) \<and>
      p ! 3 = CHR ''-'' \<and> isAsciiLetter (p ! 4) \<and> isAsciiLetter (p ! 5) \<and>
      (length p = 6 \<or> p ! 6 = CHR ''/''))"

text \<open>ASCII case conversion of one character, to state what ignoring case means.\<close>

definition toUpperCase :: "char \<Rightarrow> char" where
  \<comment> \<open>ASCII upper-casing of one character\<close>
  "toUpperCase c =
     (let n = (of_char c :: nat) in if 97 \<le> n \<and> n \<le> 122 then char_of (n - 32) else c)"

definition toLowerCase :: "char \<Rightarrow> char" where
  \<comment> \<open>ASCII lower-casing of one character\<close>
  "toLowerCase c =
     (let n = (of_char c :: nat) in if 65 \<le> n \<and> n \<le> 90 then char_of (n + 32) else c)"

section \<open>Example inputs\<close>

text \<open>The specification's worked example: \<open>https://www.honeylove.com/en-us/shop?color=red&ref=abc\<close>.\<close>

definition exampleURL :: URL where
  "exampleURL =
     \<lparr>href = ''https://www.honeylove.com/en-us/shop?color=red&ref=abc'',
      origin = ''https://www.honeylove.com'',
      host = ''www.honeylove.com'',
      pathname = ''/en-us/shop'',
      searchParams = [(''color'', ''red''), (''ref'', ''abc'')]\<rparr>"

text \<open>A path with two locale segments in a row.\<close>

definition doubleLocaleURL :: URL where
  "doubleLocaleURL =
     \<lparr>href = ''https://www.honeylove.com/en-us/fr-fr/shop'',
      origin = ''https://www.honeylove.com'',
      host = ''www.honeylove.com'',
      pathname = ''/en-us/fr-fr/shop'',
      searchParams = []\<rparr>"

text \<open>Loader arguments whose four collaborators settle as given.\<close>

definition exampleArgs ::
  "jsval promise \<Rightarrow> jsval promise \<Rightarrow> jsval promise \<Rightarrow> jsval promise \<Rightarrow> loaderArgs" where
  "exampleArgs headerResult footerResult cartResult loginResult =
     \<lparr>request = \<lparr>request_url = exampleURL\<rparr>,
      context' =
        \<lparr>storefront =
           \<lparr>query = (\<lambda>q opts. case q of HEADER_QUERY \<Rightarrow> headerResult
                                       | FOOTER_QUERY \<Rightarrow> footerResult)\<rparr>,
         customerAccount = \<lparr>isLoggedIn = loginResult\<rparr>,
         cart = \<lparr>get = cartResult\<rparr>,
         env = \<lparr>PUBLIC_STORE_DOMAIN = ''shop.example'',
                PUBLIC_STOREFRONT_ID = ''1'',
                PUBLIC_CHECKOUT_DOMAIN = ''checkout.example'',
                PUBLIC_STOREFRONT_API_TOKEN = ''token''\<rparr>\<rparr>\<rparr>"

definition exampleShopAnalytics :: "storefront \<Rightarrow> string \<Rightarrow> jsval promise" where
  "exampleShopAnalytics sf publicStorefrontId = Fulfilled Null"

section \<open>Lists and characters\<close>

lemma takeWhile_stop:
  "\<forall>x \<in> set xs. P x \<Longrightarrow> \<not> P y \<Longrightarrow> takeWhile P (xs @ y # ys) = xs"
  by (induction xs) auto

lemma dropWhile_stop:
  "\<forall>x \<in> set xs. P x \<Longrightarrow> \<not> P y \<Longrightarrow> dropWhile P (xs @ y # ys) = y # ys"
  by (induction xs) auto

lemma takeWhile_all:
  "\<forall>x \<in> set xs. P x \<Longrightarrow> takeWhile P xs = xs"
  by (induction xs) auto

lemma dropWhile_all:
  "\<forall>x \<in> set xs. P x \<Longrightarrow> dropWhile P xs = []"
  by (induction xs) auto

lemma of_char_lt_256: "(of_char c :: nat) < 256"
  by (metis of_char_mod_256 mod_less_divisor zero_less_numeral)

lemma of_char_div16: "(of_char c :: nat) div 16 < 16"
  using of_char_lt_256 [of c] by arith

section \<open>The serializer and the parser are inverse\<close>

lemma hexDigit_props:
  assumes "n < 16"
  shows "isHexDigit (hexDigit n)" and "hexValue (hexDigit n) = n"
    and "hexDigit n \<notin> {CHR ''&'', CHR ''='', CHR ''#'', CHR ''?'', CHR ''+'', CHR ''%''}"
proof -
  have v: "(of_char (hexDigit n) :: nat) = (if n < 10 then 48 + n else 55 + n)"
    using assms by (simp add: hexDigit_def)
  show "isHexDigit (hexDigit n)"
    using assms by (simp add: isHexDigit_def v)
  show "hexValue (hexDigit n) = n"
    using assms by (simp add: hexValue_def v)
  have "c \<in> {CHR ''&'', CHR ''='', CHR ''#'', CHR ''?'', CHR ''+'', CHR ''%''} \<Longrightarrow>
          (of_char c :: nat) \<in> {38, 61, 35, 63, 43, 37}" for c
    by auto
  from this [of "hexDigit n"]
  show "hexDigit n \<notin> {CHR ''&'', CHR ''='', CHR ''#'', CHR ''?'', CHR ''+'', CHR ''%''}"
    using assms unfolding v by (auto split: if_splits)
qed

lemma safe_not_special:
  "isUrlencodedSafe c \<Longrightarrow>
     c \<notin> {CHR ''&'', CHR ''='', CHR ''#'', CHR ''?'', CHR ''+'', CHR ''%'', CHR '' ''}"
  by (auto simp: isUrlencodedSafe_def isAsciiLetter_def isAsciiDigit_def)

lemma urlencodeByte_chars:
  "x \<in> set (urlencodeByte c) \<Longrightarrow> x \<notin> {CHR ''&'', CHR ''='', CHR ''#'', CHR ''?''}"
proof -
  assume x: "x \<in> set (urlencodeByte c)"
  have hi: "(of_char c :: nat) div 16 < 16" by (rule of_char_div16)
  have lo: "(of_char c :: nat) mod 16 < 16" by simp
  show ?thesis
    using x safe_not_special [of c] hexDigit_props(3) [OF hi] hexDigit_props(3) [OF lo]
    by (auto simp: urlencodeByte_def percentEncodeByte_def split: if_splits)
qed

lemma urlencode_chars:
  "x \<in> set (urlencode s) \<Longrightarrow> x \<notin> {CHR ''&'', CHR ''='', CHR ''#'', CHR ''?''}"
  using urlencodeByte_chars by (fastforce simp: urlencode_def)

lemma percentDecode_plain:
  "p \<noteq> CHR ''%'' \<Longrightarrow> percentDecode (p # r) = p # percentDecode r"
  by (cases "(p # r)" rule: percentDecode.cases) auto

lemma percentDecode_escape:
  "percentDecode (percentEncodeByte c @ r) = c # percentDecode r"
proof -
  have hi: "(of_char c :: nat) div 16 < 16" by (rule of_char_div16)
  have lo: "(of_char c :: nat) mod 16 < 16" by simp
  have "16 * ((of_char c :: nat) div 16) + of_char c mod 16 = of_char c" by simp
  then show ?thesis
    using hexDigit_props(1,2) [OF hi] hexDigit_props(1,2) [OF lo]
    by (simp add: percentEncodeByte_def)
qed

lemma map_plusToSpace_escape:
  "map plusToSpace (percentEncodeByte c) = percentEncodeByte c"
proof -
  have hi: "(of_char c :: nat) div 16 < 16" by (rule of_char_div16)
  have lo: "(of_char c :: nat) mod 16 < 16" by simp
  show ?thesis
    using hexDigit_props(3) [OF hi] hexDigit_props(3) [OF lo]
    by (simp add: percentEncodeByte_def plusToSpace_def)
qed

lemma urldecode_step:
  "percentDecode (map plusToSpace (urlencodeByte c) @ r) = c # percentDecode r"
proof (cases "c = CHR '' ''")
  case True
  then show ?thesis
    by (simp add: urlencodeByte_def plusToSpace_def percentDecode_plain)
next
  case False
  show ?thesis
  proof (cases "isUrlencodedSafe c")
    case True
    with False safe_not_special [of c] show ?thesis
      by (simp add: urlencodeByte_def plusToSpace_def percentDecode_plain)
  next
    case False
    with \<open>c \<noteq> CHR '' ''\<close> show ?thesis
      by (simp add: urlencodeByte_def map_plusToSpace_escape percentDecode_escape)
  qed
qed

lemma urldecode_urlencode: "urldecode (urlencode s) = s"
proof -
  have "percentDecode (map plusToSpace (urlencode s)) = s"
  proof (induction s)
    case Nil
    then show ?case by (simp add: urlencode_def)
  next
    case (Cons c s)
    have "percentDecode (map plusToSpace (urlencode (c # s)))
            = percentDecode (map plusToSpace (urlencodeByte c) @ map plusToSpace (urlencode s))"
      by (simp add: urlencode_def)
    also have "\<dots> = c # percentDecode (map plusToSpace (urlencode s))"
      by (rule urldecode_step)
    finally show ?case using Cons.IH by simp
  qed
  then show ?thesis by (simp add: urldecode_def)
qed

lemma splitOn_no_sep: "sep \<notin> set x \<Longrightarrow> splitOn sep x = [x]"
  by (induction x) auto

lemma splitOn_append:
  "sep \<notin> set x \<Longrightarrow> splitOn sep (x @ sep # r) = x # splitOn sep r"
  by (induction x) auto

lemma splitOn_joinWith:
  "\<forall>x \<in> set xs. sep \<notin> set x \<Longrightarrow> xs \<noteq> [] \<Longrightarrow> splitOn sep (joinWith [sep] xs) = xs"
proof (induction xs rule: induct_list012)
  case 1
  then show ?case by simp
next
  case (2 x)
  then show ?case by (simp add: splitOn_no_sep)
next
  case (3 x y ys)
  then have "splitOn sep (joinWith [sep] (y # ys)) = y # ys" by simp
  moreover have "sep \<notin> set x" using 3 by simp
  ultimately show ?case by (simp add: splitOn_append)
qed

lemma decodePair_encodePair: "decodePair (encodePair kv) = kv"
proof -
  have k: "\<forall>x \<in> set (urlencode (fst kv)). x \<noteq> CHR ''=''"
    using urlencode_chars [of _ "fst kv"] by auto
  have t: "takeWhile (\<lambda>c. c \<noteq> CHR ''='') (urlencode (fst kv) @ CHR ''='' # urlencode (snd kv))
             = urlencode (fst kv)"
    using k by (intro takeWhile_stop) auto
  have d: "dropWhile (\<lambda>c. c \<noteq> CHR ''='') (urlencode (fst kv) @ CHR ''='' # urlencode (snd kv))
             = CHR ''='' # urlencode (snd kv)"
    using k by (intro dropWhile_stop) auto
  show ?thesis
    by (simp add: decodePair_def encodePair_def t d urldecode_urlencode)
qed

lemma encodePair_chars:
  "x \<in> set (encodePair kv) \<Longrightarrow> x \<notin> {CHR ''&'', CHR ''#'', CHR ''?''}"
  using urlencode_chars [of x "fst kv"] urlencode_chars [of x "snd kv"]
  by (auto simp: encodePair_def)

lemma encodePair_nonempty: "encodePair kv \<noteq> []"
  by (simp add: encodePair_def)

lemma set_joinWith:
  "set (joinWith sep xs) \<subseteq> set sep \<union> \<Union> (set ` set xs)"
  by (induction sep xs rule: joinWith.induct) auto

lemma serialize_chars:
  "x \<in> set (serializeUrlencoded ps) \<Longrightarrow> x \<notin> {CHR ''#'', CHR ''?''}"
proof -
  assume "x \<in> set (serializeUrlencoded ps)"
  then have "x \<in> set ''&'' \<union> \<Union> (set ` set (map encodePair ps))"
    using set_joinWith [of "''&''" "map encodePair ps"]
    by (auto simp: serializeUrlencoded_def)
  then show ?thesis using encodePair_chars by auto
qed

lemma parse_serialize: "parseUrlencoded (serializeUrlencoded ps) = ps"
proof (cases "ps = []")
  case True
  then show ?thesis by (simp add: parseUrlencoded_def serializeUrlencoded_def)
next
  case False
  have nosep: "\<forall>x \<in> set (map encodePair ps). CHR ''&'' \<notin> set x"
    using encodePair_chars by auto
  have split: "splitOn CHR ''&'' (serializeUrlencoded ps) = map encodePair ps"
    unfolding serializeUrlencoded_def
    using splitOn_joinWith [OF nosep] False by simp
  have ne: "filter (\<lambda>seq. seq \<noteq> []) (map encodePair ps) = map encodePair ps"
    by (simp add: filter_id_conv encodePair_nonempty)
  have "map decodePair (map encodePair ps) = ps"
    by (induction ps) (simp_all add: decodePair_encodePair)
  then show ?thesis
    unfolding parseUrlencoded_def split ne .
qed

lemma cleanParams_parse:
  "parseUrlencoded (cleanParams u) = filter (\<lambda>(k, v). k = ''color'') (searchParams u)"
  by (simp add: cleanParams_def parse_serialize whitelistedParams_def)

lemma cleanParams_chars:
  "CHR ''#'' \<notin> set (cleanParams u)"
  using serialize_chars [of "CHR ''#''"] by (auto simp: cleanParams_def)

section \<open>Locale stripping\<close>

lemma localeMatch_Some_iff:
  "(localeMatch p \<noteq> None) = beginsWithLocaleSegment p"
proof (cases p rule: localeMatch.cases)
  case (1 s a b h c d rest)
  then show ?thesis
    by (cases rest) (auto simp: beginsWithLocaleSegment_def)
qed (auto simp: beginsWithLocaleSegment_def)

lemma localeMatch_prefix:
  "localeMatch p = Some m \<Longrightarrow> prefix m p \<and> m = take (length m) p \<and> (length m = 6 \<or> length m = 7)"
proof (cases p rule: localeMatch.cases)
  case (1 s a b h c d rest)
  assume "localeMatch p = Some m"
  with 1 show ?thesis
    by (cases rest) (auto split: if_splits)
qed auto

lemma localeMatch_length:
  "localeMatch p = Some m \<Longrightarrow> length m = (if length p = 6 then 6 else 7)"
proof (cases p rule: localeMatch.cases)
  case (1 s a b h c d rest)
  assume "localeMatch p = Some m"
  with 1 show ?thesis
    by (cases rest) (auto split: if_splits)
qed auto

lemma replaceFirst_prefix:
  "prefix m p \<Longrightarrow> p \<noteq> [] \<Longrightarrow> replaceFirst p m rep = rep @ drop (length m) p"
  by (cases p) auto

lemma cleanLocale_stripped:
  assumes "beginsWithLocaleSegment (pathname u)"
  shows "cleanLocaleFromPathname u = CHR ''/'' # drop 7 (pathname u)"
proof -
  from assms obtain m where m: "localeMatch (pathname u) = Some m"
    using localeMatch_Some_iff [of "pathname u"] by auto
  have ne: "pathname u \<noteq> []"
    using assms by (auto simp: beginsWithLocaleSegment_def)
  have pre: "prefix m (pathname u)"
    using localeMatch_prefix [OF m] by simp
  have len: "length m = (if length (pathname u) = 6 then 6 else 7)"
    by (rule localeMatch_length [OF m])
  have "cleanLocaleFromPathname u = ''/'' @ drop (length m) (pathname u)"
    using m replaceFirst_prefix [OF pre ne] by (simp add: cleanLocaleFromPathname_def)
  then show ?thesis using len by (auto split: if_splits)
qed

lemma cleanLocale_unchanged:
  "\<not> beginsWithLocaleSegment (pathname u) \<Longrightarrow> cleanLocaleFromPathname u = pathname u"
  using localeMatch_Some_iff [of "pathname u"]
  by (auto simp: cleanLocaleFromPathname_def split: option.splits)

lemma cleanLocale_again:
  "beginsWithLocaleSegment (cleanLocaleFromPathname u) =
     (beginsWithLocaleSegment (pathname u) \<and> beginsWithLocaleSegment (drop 6 (pathname u)))"
proof (cases "beginsWithLocaleSegment (pathname u)")
  case False
  then show ?thesis by (simp add: cleanLocale_unchanged)
next
  case True
  have "length (pathname u) = 6 \<or> (7 \<le> length (pathname u) \<and> pathname u ! 6 = CHR ''/'')"
    using True by (auto simp: beginsWithLocaleSegment_def)
  then show ?thesis
  proof
    assume "length (pathname u) = 6"
    then show ?thesis
      using True by (simp add: cleanLocale_stripped beginsWithLocaleSegment_def)
  next
    assume h: "7 \<le> length (pathname u) \<and> pathname u ! 6 = CHR ''/''"
    then have "drop 6 (pathname u) = pathname u ! 6 # drop 7 (pathname u)"
      using Cons_nth_drop_Suc [of 6 "pathname u"] by simp
    with h True show ?thesis by (simp add: cleanLocale_stripped)
  qed
qed

lemma cleanLocale_chars:
  "set (cleanLocaleFromPathname u) \<subseteq> insert CHR ''/'' (set (pathname u))"
proof (cases "beginsWithLocaleSegment (pathname u)")
  case True
  then show ?thesis
    using set_drop_subset [of 7 "pathname u"] by (auto simp: cleanLocale_stripped)
next
  case False
  then show ?thesis by (auto simp: cleanLocale_unchanged)
qed

lemma cleanLocale_wf:
  assumes "wellFormedURL u"
  shows "CHR ''?'' \<notin> set (cleanLocaleFromPathname u)" and "CHR ''#'' \<notin> set (cleanLocaleFromPathname u)"
  using assms cleanLocale_chars [of u] by (auto simp: wellFormedURL_def)

text \<open>
  C4. A pathname that begins with a locale segment (two letters, a dash, two letters, in
  either case, ended by a slash or by the end of the path) loses that segment: what is
  left is the remainder of the path, and \<open>/\<close> when nothing remains. Any other
  pathname, a three-letter near-match included, is returned unchanged.
\<close>

theorem C4_locale_stripping:
  "(beginsWithLocaleSegment (pathname u) \<longrightarrow>
      cleanLocaleFromPathname u =
        (if drop 6 (pathname u) = [] then ''/'' else drop 6 (pathname u))) \<and>
   (\<not> beginsWithLocaleSegment (pathname u) \<longrightarrow>
      cleanLocaleFromPathname u = pathname u) \<and>
   \<not> beginsWithLocaleSegment ''/eng-us/shop'' \<and>
   cleanLocaleFromPathname (u\<lparr>pathname := ''/eng-us/shop''\<rparr>) = ''/eng-us/shop''"
proof (intro conjI impI)
  assume b: "beginsWithLocaleSegment (pathname u)"
  have "length (pathname u) = 6 \<or> (7 \<le> length (pathname u) \<and> pathname u ! 6 = CHR ''/'')"
    using b by (auto simp: beginsWithLocaleSegment_def)
  then have "(if drop 6 (pathname u) = [] then ''/'' else drop 6 (pathname u))
               = CHR ''/'' # drop 7 (pathname u)"
  proof
    assume "length (pathname u) = 6"
    then show ?thesis by simp
  next
    assume h: "7 \<le> length (pathname u) \<and> pathname u ! 6 = CHR ''/''"
    then have "drop 6 (pathname u) = pathname u ! 6 # drop 7 (pathname u)"
      using Cons_nth_drop_Suc [of 6 "pathname u"] by simp
    with h show ?thesis by simp
  qed
  with cleanLocale_stripped [OF b]
  show "cleanLocaleFromPathname u =
          (if drop 6 (pathname u) = [] then ''/'' else drop 6 (pathname u))"
    by simp
next
  assume "\<not> beginsWithLocaleSegment (pathname u)"
  then show "cleanLocaleFromPathname u = pathname u"
    by (rule cleanLocale_unchanged)
next
  show "\<not> beginsWithLocaleSegment ''/eng-us/shop''"
    by (simp add: beginsWithLocaleSegment_def isAsciiLetter_def)
next
  show "cleanLocaleFromPathname (u\<lparr>pathname := ''/eng-us/shop''\<rparr>) = ''/eng-us/shop''"
    by (simp add: cleanLocaleFromPathname_def isAsciiLetter_def)
qed

text \<open>C4 at \<open>/en-us/shop\<close>, which is stripped, and at \<open>/shop/en-us\<close>, which is not.\<close>

theorem C4_locale_stripping_witness:
  "beginsWithLocaleSegment (pathname exampleURL) \<and>
   cleanLocaleFromPathname exampleURL = ''/shop'' \<and>
   \<not> beginsWithLocaleSegment (pathname (exampleURL\<lparr>pathname := ''/shop/en-us''\<rparr>)) \<and>
   cleanLocaleFromPathname (exampleURL\<lparr>pathname := ''/shop/en-us''\<rparr>) = ''/shop/en-us''"
proof -
  have b: "beginsWithLocaleSegment (pathname exampleURL)"
    by (simp add: exampleURL_def beginsWithLocaleSegment_def isAsciiLetter_def)
  have n: "\<not> beginsWithLocaleSegment (pathname (exampleURL\<lparr>pathname := ''/shop/en-us''\<rparr>))"
    by (simp add: beginsWithLocaleSegment_def isAsciiLetter_def)
  have d: "drop 6 (pathname exampleURL) = ''/shop''"
    by (simp add: exampleURL_def)
  show ?thesis
    using b n d C4_locale_stripping [of exampleURL]
      C4_locale_stripping [of "exampleURL\<lparr>pathname := ''/shop/en-us''\<rparr>"]
    by simp
qed

section \<open>Canonical URL and hreflangs\<close>

lemma canonical_shape:
  "createCanonicalUrl u =
     origin u @ cleanLocaleFromPathname u @ (if cleanParams u = [] then [] else CHR ''?'' # cleanParams u)"
  by (simp add: createCanonicalUrl_def Let_def)

lemma hreflang_shape:
  "createHreflangs u =
     [\<lparr>language = ''en-us'',
       url = origin u @ cleanLocaleFromPathname u @ (if cleanParams u = [] then [] else CHR ''?'' # cleanParams u),
       default_flag = True\<rparr>]"
  by (simp add: createHreflangs_def Let_def)

lemma urlPath_shape:
  assumes "CHR ''?'' \<notin> set p" "CHR ''#'' \<notin> set p"
  shows "urlPath org (org @ p @ (if q = [] then [] else CHR ''?'' # q)) = p"
proof -
  have all: "\<forall>x \<in> set p. x \<noteq> CHR ''?'' \<and> x \<noteq> CHR ''#''"
    using assms by auto
  show ?thesis
  proof (cases "q = []")
    case True
    then show ?thesis using takeWhile_all [OF all] by (simp add: urlPath_def)
  next
    case False
    then show ?thesis
      using takeWhile_stop [OF all, of "CHR ''?''" q] by (simp add: urlPath_def)
  qed
qed

lemma urlQuery_shape:
  assumes "CHR ''?'' \<notin> set org" "CHR ''#'' \<notin> set org" "CHR ''?'' \<notin> set p" "CHR ''#'' \<notin> set p"
    "CHR ''#'' \<notin> set q"
  shows "urlQuery (org @ p @ (if q = [] then [] else CHR ''?'' # q)) = q"
proof -
  let ?s = "org @ p @ (if q = [] then [] else CHR ''?'' # q)"
  have "\<forall>x \<in> set ?s. x \<noteq> CHR ''#''"
    using assms by auto
  then have nofrag: "takeWhile (\<lambda>c. c \<noteq> CHR ''#'') ?s = ?s"
    by (rule takeWhile_all)
  have all: "\<forall>x \<in> set (org @ p). x \<noteq> CHR ''?''"
    using assms by auto
  have "dropWhile (\<lambda>c. c \<noteq> CHR ''?'') ?s = (if q = [] then [] else CHR ''?'' # q)"
  proof (cases "q = []")
    case True
    then show ?thesis using dropWhile_all [OF all] by simp
  next
    case False
    then show ?thesis
      using dropWhile_stop [OF all, of "CHR ''?''" q] by simp
  qed
  then show ?thesis
    unfolding urlQuery_def nofrag by simp
qed

lemma contains_question_shape:
  assumes "CHR ''?'' \<notin> set org" "CHR ''?'' \<notin> set p"
  shows "(CHR ''?'' \<in> set (org @ p @ (if q = [] then [] else CHR ''?'' # q))) = (q \<noteq> [])"
  using assms by auto

lemma clean_url_facts:
  assumes wf: "wellFormedURL u"
  defines "s \<equiv> origin u @ cleanLocaleFromPathname u @
                 (if cleanParams u = [] then [] else CHR ''?'' # cleanParams u)"
  shows "urlQueryParams s = filter (\<lambda>(k, v). k = ''color'') (searchParams u)"
    and "urlPath (origin u) s = cleanLocaleFromPathname u"
proof -
  have o: "CHR ''?'' \<notin> set (origin u)" "CHR ''#'' \<notin> set (origin u)"
    using wf by (simp_all add: wellFormedURL_def)
  have "urlQuery s = cleanParams u"
    unfolding s_def
    by (rule urlQuery_shape [OF o cleanLocale_wf [OF wf] cleanParams_chars])
  then show "urlQueryParams s = filter (\<lambda>(k, v). k = ''color'') (searchParams u)"
    by (simp add: urlQueryParams_def cleanParams_parse)
  show "urlPath (origin u) s = cleanLocaleFromPathname u"
    unfolding s_def by (rule urlPath_shape [OF cleanLocale_wf [OF wf]])
qed

text \<open>
  C1, as stated, fails: the code removes one leading locale segment, once. For the
  pathname \<open>/en-us/fr-fr/shop\<close> the canonical URL is
  \<open>https://www.honeylove.com/fr-fr/shop\<close>, whose path begins with a locale segment.
\<close>

theorem C1_double_locale_counterexample:
  "wellFormedURL doubleLocaleURL \<and>
   createCanonicalUrl doubleLocaleURL = ''https://www.honeylove.com/fr-fr/shop'' \<and>
   beginsWithLocaleSegment (urlPath (origin doubleLocaleURL) (createCanonicalUrl doubleLocaleURL))"
  by (simp add: doubleLocaleURL_def wellFormedURL_def createCanonicalUrl_def cleanParams_def
      serializeUrlencoded_def cleanLocaleFromPathname_def isAsciiLetter_def urlPath_def
      beginsWithLocaleSegment_def)

text \<open>
  C1, amended. For every well-formed input URL, the canonical URL and every hreflang URL
  contain no query parameter whose key is outside the whitelist (\<open>color\<close>), and their
  path is the input pathname with one leading locale segment removed: it begins with a
  locale segment exactly when the input pathname begins with two of them in a row.
\<close>

theorem C1_canonical_url_clean:
  assumes "wellFormedURL u"
  shows "\<forall>s \<in> insert (createCanonicalUrl u) (url ` set (createHreflangs u)).
           fst ` set (urlQueryParams s) \<subseteq> set whitelistedParams \<and>
           urlPath (origin u) s = cleanLocaleFromPathname u \<and>
           beginsWithLocaleSegment (urlPath (origin u) s) =
             (beginsWithLocaleSegment (pathname u) \<and>
              beginsWithLocaleSegment (drop 6 (pathname u)))"
proof -
  let ?s = "origin u @ cleanLocaleFromPathname u @
              (if cleanParams u = [] then [] else CHR ''?'' # cleanParams u)"
  have all: "insert (createCanonicalUrl u) (url ` set (createHreflangs u)) = {?s}"
    by (simp add: canonical_shape hreflang_shape)
  have q: "fst ` set (urlQueryParams ?s) \<subseteq> set whitelistedParams"
    unfolding clean_url_facts(1) [OF assms] by (auto simp: whitelistedParams_def)
  show ?thesis
    unfolding all using q clean_url_facts(2) [OF assms] cleanLocale_again [of u] by simp
qed

text \<open>C1 (amended) at the worked example: the only key is \<open>color\<close>, the path is \<open>/shop\<close>.\<close>

theorem C1_canonical_url_clean_witness:
  "wellFormedURL exampleURL \<and>
   createCanonicalUrl exampleURL \<in> insert (createCanonicalUrl exampleURL) (url ` set (createHreflangs exampleURL)) \<and>
   fst ` set (urlQueryParams (createCanonicalUrl exampleURL)) \<subseteq> set whitelistedParams \<and>
   urlPath (origin exampleURL) (createCanonicalUrl exampleURL) = ''/shop'' \<and>
   \<not> beginsWithLocaleSegment (urlPath (origin exampleURL) (createCanonicalUrl exampleURL))"
proof -
  have wf: "wellFormedURL exampleURL"
    by (simp add: wellFormedURL_def exampleURL_def)
  have c: "cleanLocaleFromPathname exampleURL = ''/shop''"
    by (simp add: cleanLocaleFromPathname_def exampleURL_def isAsciiLetter_def)
  have n: "\<not> beginsWithLocaleSegment (drop 6 (pathname exampleURL))"
    by (simp add: exampleURL_def beginsWithLocaleSegment_def)
  show ?thesis
    using wf c n C1_canonical_url_clean [OF wf] by (simp add: beginsWithLocaleSegment_def)
qed

text \<open>
  C5. Reading the filtered parameter string back gives exactly the parameters with key
  \<open>color\<close>, in their original order (a subsequence of the input parameters); when no
  parameter survives the string is empty; and the canonical URL of a well-formed URL
  contains a \<open>?\<close> if and only if the filtered parameter string is non-empty.
\<close>

theorem C5_filter:
  "parseUrlencoded (cleanParams u) = filter (\<lambda>(k, v). k = ''color'') (searchParams u) \<and>
   subseq (parseUrlencoded (cleanParams u)) (searchParams u) \<and>
   (filter (\<lambda>(k, v). k = ''color'') (searchParams u) = [] \<longrightarrow> cleanParams u = []) \<and>
   (wellFormedURL u \<longrightarrow>
      (CHR ''?'' \<in> set (createCanonicalUrl u)) = (cleanParams u \<noteq> []))"
proof (intro conjI impI)
  show p: "parseUrlencoded (cleanParams u) = filter (\<lambda>(k, v). k = ''color'') (searchParams u)"
    by (rule cleanParams_parse)
  show "subseq (parseUrlencoded (cleanParams u)) (searchParams u)"
    unfolding p by simp
  show "cleanParams u = []" if "filter (\<lambda>(k, v). k = ''color'') (searchParams u) = []"
    using that by (simp add: cleanParams_def whitelistedParams_def serializeUrlencoded_def)
  show "(CHR ''?'' \<in> set (createCanonicalUrl u)) = (cleanParams u \<noteq> [])" if wf: "wellFormedURL u"
  proof -
    have "CHR ''?'' \<notin> set (origin u)" using wf by (simp add: wellFormedURL_def)
    then show ?thesis
      unfolding canonical_shape
      by (rule contains_question_shape [OF _ cleanLocale_wf(1) [OF wf]])
  qed
qed

text \<open>C5 at the worked example, and at the same URL with no \<open>color\<close> parameter.\<close>

theorem C5_filter_witness:
  "wellFormedURL exampleURL \<and>
   parseUrlencoded (cleanParams exampleURL) = [(''color'', ''red'')] \<and>
   CHR ''?'' \<in> set (createCanonicalUrl exampleURL) \<and>
   filter (\<lambda>(k, v). k = ''color'') (searchParams (exampleURL\<lparr>searchParams := [(''ref'', ''abc'')]\<rparr>)) = [] \<and>
   cleanParams (exampleURL\<lparr>searchParams := [(''ref'', ''abc'')]\<rparr>) = []"
proof -
  have wf: "wellFormedURL exampleURL"
    by (simp add: wellFormedURL_def exampleURL_def)
  have f: "filter (\<lambda>(k, v). k = ''color'') (searchParams exampleURL) = [(''color'', ''red'')]"
    by (simp add: exampleURL_def)
  have e: "filter (\<lambda>(k, v). k = ''color'')
             (searchParams (exampleURL\<lparr>searchParams := [(''ref'', ''abc'')]\<rparr>)) = []"
    by simp
  have ne: "cleanParams exampleURL \<noteq> []"
  proof
    assume "cleanParams exampleURL = []"
    then have "parseUrlencoded (cleanParams exampleURL) = []"
      by (simp add: parseUrlencoded_def)
    with f C5_filter [of exampleURL] show False by simp
  qed
  show ?thesis
    using wf f e ne C5_filter [of exampleURL]
      C5_filter [of "exampleURL\<lparr>searchParams := [(''ref'', ''abc'')]\<rparr>"]
    by simp
qed

text \<open>
  C7. The hreflang list has exactly one entry: language \<open>en-us\<close>, marked default, with
  the canonical URL of the same input as its url.
\<close>

theorem C7_hreflang:
  "createHreflangs u = [\<lparr>language = ''en-us'', url = createCanonicalUrl u, default_flag = True\<rparr>]"
  by (simp add: createHreflangs_def createCanonicalUrl_def Let_def)

text \<open>C7 at the worked example.\<close>

theorem C7_hreflang_witness:
  "createHreflangs exampleURL =
     [\<lparr>language = ''en-us'', url = ''https://www.honeylove.com/shop?color=red'',
       default_flag = True\<rparr>] \<and>
   createCanonicalUrl exampleURL = ''https://www.honeylove.com/shop?color=red''"
proof -
  have c: "createCanonicalUrl exampleURL = ''https://www.honeylove.com/shop?color=red''"
    by (simp add: createCanonicalUrl_def cleanParams_def whitelistedParams_def
        serializeUrlencoded_def encodePair_def urlencode_def urlencodeByte_def
        isUrlencodedSafe_def isAsciiLetter_def isAsciiDigit_def
        cleanLocaleFromPathname_def exampleURL_def)
  show ?thesis
    using c C7_hreflang [of exampleURL] by simp
qed

section \<open>Case sensitivity\<close>

lemma letter_upper: "isAsciiLetter (toUpperCase c) = isAsciiLetter c"
  by (auto simp: isAsciiLetter_def toUpperCase_def Let_def)

lemma of_char_toUpperCase:
  "(of_char (toUpperCase c) :: nat) =
     (if 97 \<le> (of_char c :: nat) \<and> (of_char c :: nat) \<le> 122 then of_char c - 32 else of_char c)"
proof -
  have "(of_char c :: nat) - 32 < 256"
    using of_char_lt_256 [of c] by arith
  then have "((of_char c :: nat) - 32) mod 256 = of_char c - 32"
    by (rule mod_less)
  then show ?thesis by (simp add: toUpperCase_def Let_def)
qed

lemma upper_eq_fixed:
  assumes "(of_char d :: nat) < 65"
  shows "(toUpperCase c = d) = (c = d)"
proof -
  have "(toUpperCase c = d) = ((of_char (toUpperCase c) :: nat) = of_char d)"
    by simp
  also have "\<dots> = ((of_char c :: nat) = of_char d)"
    unfolding of_char_toUpperCase using assms by auto
  also have "\<dots> = (c = d)" by simp
  finally show ?thesis .
qed

lemma localeMatch_upper:
  "(localeMatch (map toUpperCase p) = None) = (localeMatch p = None)"
proof -
  have s: "(toUpperCase c = CHR ''/'') = (c = CHR ''/'')" for c
    by (rule upper_eq_fixed) simp
  have d: "(toUpperCase c = CHR ''-'') = (c = CHR ''-'')" for c
    by (rule upper_eq_fixed) simp
  show ?thesis
  proof (cases p rule: localeMatch.cases)
    case (1 s a b h c d rest)
    then show ?thesis
      by (cases rest) (simp_all add: letter_upper s d)
  qed simp_all
qed

text \<open>
  C10. A parameter whose key differs from \<open>color\<close> only in letter case is dropped by the
  filter (\<open>Color\<close> and \<open>COLOR\<close> leave the empty string), whereas the locale match on the
  pathname ignores case: upper-casing a pathname does not change whether it matches, and
  \<open>/EN-us/shop\<close> is stripped to \<open>/shop\<close>.
\<close>

theorem C10_case_sensitive:
  "(map toLowerCase k = ''color'' \<and> k \<noteq> ''color'' \<longrightarrow>
      k \<notin> fst ` set (parseUrlencoded (cleanParams u))) \<and>
   cleanParams (u\<lparr>searchParams := [(''Color'', ''red''), (''COLOR'', ''blue'')]\<rparr>) = [] \<and>
   (localeMatch (map toUpperCase p) = None) = (localeMatch p = None) \<and>
   cleanLocaleFromPathname (u\<lparr>pathname := ''/EN-us/shop''\<rparr>) = ''/shop''"
proof (intro conjI impI)
  show "k \<notin> fst ` set (parseUrlencoded (cleanParams u))"
    if "map toLowerCase k = ''color'' \<and> k \<noteq> ''color''"
    using that unfolding cleanParams_parse by auto
  show "cleanParams (u\<lparr>searchParams := [(''Color'', ''red''), (''COLOR'', ''blue'')]\<rparr>) = []"
    by (simp add: cleanParams_def whitelistedParams_def serializeUrlencoded_def)
  show "(localeMatch (map toUpperCase p) = None) = (localeMatch p = None)"
    by (rule localeMatch_upper)
  show "cleanLocaleFromPathname (u\<lparr>pathname := ''/EN-us/shop''\<rparr>) = ''/shop''"
    by (simp add: cleanLocaleFromPathname_def isAsciiLetter_def)
qed

text \<open>C10 at the key \<open>Color\<close>.\<close>

theorem C10_case_sensitive_witness:
  "map toLowerCase ''Color'' = ''color'' \<and> ''Color'' \<noteq> ''color'' \<and>
   ''Color'' \<notin> fst ` set (parseUrlencoded (cleanParams
       (exampleURL\<lparr>searchParams := [(''Color'', ''red''), (''color'', ''blue'')]\<rparr>)))"
proof -
  have l: "map toLowerCase ''Color'' = ''color''" by code_simp
  show ?thesis
    using l C10_case_sensitive
      [of "''Color''" "exampleURL\<lparr>searchParams := [(''Color'', ''red''), (''color'', ''blue'')]\<rparr>"]
    by simp
qed

section \<open>Robots directive\<close>

text \<open>
  C6. The \<open>noFollow\<close> flag of the SEO descriptor is true if and only if the host of the
  request URL is exactly \<open>dev.honeylove.com\<close> or \<open>staging.honeylove.com\<close>; it is false for
  subdomains and lookalikes of them and for the production host.
\<close>

theorem C6_noFollow:
  "noFollow (robots (rootSeo u)) =
     (host u = ''dev.honeylove.com'' \<or> host u = ''staging.honeylove.com'') \<and>
   \<not> noFollow (robots (rootSeo (u\<lparr>host := ''www.dev.honeylove.com''\<rparr>))) \<and>
   \<not> noFollow (robots (rootSeo (u\<lparr>host := ''dev.honeylove.com.example.org''\<rparr>))) \<and>
   \<not> noFollow (robots (rootSeo (u\<lparr>host := ''staging.honeylove.co''\<rparr>))) \<and>
   \<not> noFollow (robots (rootSeo (u\<lparr>host := ''www.honeylove.com''\<rparr>)))"
  by (simp add: rootSeo_def Let_def)

text \<open>C6 at the development host.\<close>

theorem C6_noFollow_witness:
  "noFollow (robots (rootSeo (exampleURL\<lparr>host := ''dev.honeylove.com''\<rparr>))) \<and>
   \<not> noFollow (robots (rootSeo exampleURL))"
  using C6_noFollow [of "exampleURL\<lparr>host := ''dev.honeylove.com''\<rparr>"] C6_noFollow [of exampleURL]
  by (simp add: exampleURL_def)

section \<open>Revalidation policy\<close>

text \<open>
  C8. \<open>shouldRevalidate\<close> returns true if and only if the navigation is a form submission
  with a method other than \<open>GET\<close>, or the next URL equals the current URL as a string; a
  form method, when present, is not the empty string.
\<close>

theorem C8_shouldRevalidate:
  assumes "formMethod a \<noteq> Some []"
  shows "shouldRevalidate a =
           ((\<exists>m. formMethod a = Some m \<and> m \<noteq> ''GET'') \<or>
            toString (currentUrl a) = toString (nextUrl a))"
  using assms by (cases "formMethod a") (auto simp: shouldRevalidate_def)

text \<open>C8 at a \<open>POST\<close> submission to another URL.\<close>

theorem C8_shouldRevalidate_witness:
  "formMethod \<lparr>formMethod = Some ''POST'', currentUrl = exampleURL,
               nextUrl = exampleURL\<lparr>href := ''https://www.honeylove.com/cart''\<rparr>\<rparr> \<noteq> Some [] \<and>
   shouldRevalidate \<lparr>formMethod = Some ''POST'', currentUrl = exampleURL,
               nextUrl = exampleURL\<lparr>href := ''https://www.honeylove.com/cart''\<rparr>\<rparr>"
  using C8_shouldRevalidate
    [of "\<lparr>formMethod = Some ''POST'', currentUrl = exampleURL,
          nextUrl = exampleURL\<lparr>href := ''https://www.honeylove.com/cart''\<rparr>\<rparr>"]
  by simp

section \<open>Critical and deferred data\<close>

lemma loadCriticalData_cases:
  "loadCriticalData args =
     (case headerFetch args of
        Fulfilled h \<Rightarrow> Fulfilled \<lparr>header = h\<rparr>
      | Rejected e \<Rightarrow> Rejected e
      | Pending \<Rightarrow> Pending)"
  by (simp add: loadCriticalData_def promiseThen_def split: promise.splits)

lemma loadDeferredData_cases:
  "loadDeferredData args c =
     (\<lparr>deferred_cart = get (cart (context' args)),
       deferred_isLoggedIn = isLoggedIn (customerAccount (context' args)),
       footer = (case footerFetch args of Rejected e \<Rightarrow> Fulfilled Null | p \<Rightarrow> p)\<rparr>,
      (case footerFetch args of Rejected e \<Rightarrow> c @ [e] | _ \<Rightarrow> c))"
  by (simp add: loadDeferredData_def promiseCatch_def consoleError_def split: promise.splits)

lemma loader_console:
  "snd (loader g args c) = (case footerFetch args of Rejected e \<Rightarrow> c @ [e] | _ \<Rightarrow> c)"
  by (simp add: loader_def loadDeferredData_cases)

lemma loader_rejected:
  "headerFetch args = Rejected e \<Longrightarrow> fst (loader g args c) = Rejected e"
  by (simp add: loader_def loadDeferredData_cases loadCriticalData_cases promiseThen_def)

lemma trackPromise_value:
  "v \<noteq> Undefined \<Longrightarrow> trackPromise key (Fulfilled v) = Fulfilled v"
  by (simp add: trackPromise_def onSettle_def)

lemma trackPromise_rejected:
  "trackPromise key (Rejected e) = Rejected (if e = Undefined then undefinedError key else e)"
  by (simp add: trackPromise_def onSettle_def)

lemma trackPromise_undefined:
  "trackPromise key (Fulfilled Undefined) = Rejected (undefinedError key)"
  by (simp add: trackPromise_def onSettle_def)

lemma loader_fulfilled:
  assumes "headerFetch args = Fulfilled h"
  shows "\<exists>d. fst (loader g args c) = Fulfilled d \<and>
             data_header d = h \<and>
             data_cart d = trackPromise ''cart'' (get (cart (context' args))) \<and>
             data_isLoggedIn d =
               trackPromise ''isLoggedIn'' (isLoggedIn (customerAccount (context' args))) \<and>
             data_footer d =
               trackPromise ''footer''
                 (case footerFetch args of Rejected e \<Rightarrow> Fulfilled Null | p \<Rightarrow> p)"
  using assms
  by (simp add: loader_def loadDeferredData_cases loadCriticalData_cases promiseThen_def
      defer'_def Let_def)

text \<open>
  C2. If the header fetch rejects, the promise returned by the loader rejects with the
  same reason. If the header fetch is fulfilled and the footer fetch rejects, the loader
  is fulfilled, the footer field resolves to \<open>null\<close>, and the reason is logged.
\<close>

theorem C2_critical_and_deferred:
  "(headerFetch args = Rejected e \<longrightarrow> fst (loader g args c) = Rejected e) \<and>
   (headerFetch args = Fulfilled h \<and> footerFetch args = Rejected e \<longrightarrow>
      (\<exists>d. fst (loader g args c) = Fulfilled d \<and> data_footer d = Fulfilled Null) \<and>
      snd (loader g args c) = c @ [e])"
proof (intro conjI impI)
  assume "headerFetch args = Rejected e"
  then show "fst (loader g args c) = Rejected e" by (rule loader_rejected)
next
  assume a: "headerFetch args = Fulfilled h \<and> footerFetch args = Rejected e"
  then show "\<exists>d. fst (loader g args c) = Fulfilled d \<and> data_footer d = Fulfilled Null"
    using loader_fulfilled [of args h g c] by (auto simp: trackPromise_value)
  from a show "snd (loader g args c) = c @ [e]"
    by (simp add: loader_console)
qed

text \<open>C2 at a failing header fetch, and at a failing footer fetch.\<close>

theorem C2_critical_and_deferred_witness:
  "headerFetch (exampleArgs (Rejected (Str ''down'')) (Fulfilled Null) (Fulfilled Null) (Fulfilled (Bool True)))
     = Rejected (Str ''down'') \<and>
   fst (loader exampleShopAnalytics
          (exampleArgs (Rejected (Str ''down'')) (Fulfilled Null) (Fulfilled Null) (Fulfilled (Bool True))) [])
     = Rejected (Str ''down'') \<and>
   headerFetch (exampleArgs (Fulfilled (Str ''menu'')) (Rejected (Str ''down'')) (Fulfilled Null) (Fulfilled (Bool True)))
     = Fulfilled (Str ''menu'') \<and>
   footerFetch (exampleArgs (Fulfilled (Str ''menu'')) (Rejected (Str ''down'')) (Fulfilled Null) (Fulfilled (Bool True)))
     = Rejected (Str ''down'') \<and>
   snd (loader exampleShopAnalytics
          (exampleArgs (Fulfilled (Str ''menu'')) (Rejected (Str ''down'')) (Fulfilled Null) (Fulfilled (Bool True))) [])
     = [Str ''down'']"
proof -
  let ?a = "exampleArgs (Rejected (Str ''down'')) (Fulfilled Null) (Fulfilled Null) (Fulfilled (Bool True))"
  let ?b = "exampleArgs (Fulfilled (Str ''menu'')) (Rejected (Str ''down'')) (Fulfilled Null) (Fulfilled (Bool True))"
  have ha: "headerFetch ?a = Rejected (Str ''down'')"
    by (simp add: headerFetch_def exampleArgs_def)
  have hb: "headerFetch ?b = Fulfilled (Str ''menu'')"
    by (simp add: headerFetch_def exampleArgs_def)
  have fb: "footerFetch ?b = Rejected (Str ''down'')"
    by (simp add: footerFetch_def exampleArgs_def)
  show ?thesis
    using ha hb fb
      C2_critical_and_deferred [of ?a "Str ''down''" exampleShopAnalytics "[]" "Str ''menu''"]
      C2_critical_and_deferred [of ?b "Str ''down''" exampleShopAnalytics "[]" "Str ''menu''"]
    by simp
qed

text \<open>
  C3, as stated, fails for the cart: when \<open>cart.get()\<close> rejects, the loader is fulfilled
  with the rejected promise as its cart field, and nothing is logged.
\<close>

theorem C3_cart_counterexample:
  "headerFetch (exampleArgs (Fulfilled (Str ''menu'')) (Fulfilled Null)
      (Rejected (Str ''cart down'')) (Fulfilled (Bool True)))
     = Fulfilled (Str ''menu'') \<and>
   get (cart (context' (exampleArgs (Fulfilled (Str ''menu'')) (Fulfilled Null)
      (Rejected (Str ''cart down'')) (Fulfilled (Bool True)))))
     = Rejected (Str ''cart down'') \<and>
   map_option data_cart (settledValue (fst (loader exampleShopAnalytics
      (exampleArgs (Fulfilled (Str ''menu'')) (Fulfilled Null)
         (Rejected (Str ''cart down'')) (Fulfilled (Bool True))) [])))
     = Some (Rejected (Str ''cart down'')) \<and>
   snd (loader exampleShopAnalytics
      (exampleArgs (Fulfilled (Str ''menu'')) (Fulfilled Null)
         (Rejected (Str ''cart down'')) (Fulfilled (Bool True))) [])
     = []"
  by (simp add: loader_def loadDeferredData_def loadCriticalData_def promiseThen_def
      promiseCatch_def headerFetch_def footerFetch_def exampleArgs_def defer'_def Let_def
      settledValue_def trackPromise_def onSettle_def)

text \<open>
  C3, amended. Whenever the header fetch is fulfilled the loader is fulfilled, however
  the three deferred values settle: no failure of the cart, login-status or footer fetch
  makes the loader's result fail. A failure of the footer fetch is caught, logged and
  replaced with \<open>null\<close>. A failure of the cart or login-status fetch is not caught,
  logged or replaced: it stays a rejected promise in the loader's data, and the log
  holds the footer's reason only.
\<close>

theorem C3_deferred_amended:
  assumes "headerFetch args = Fulfilled h"
  shows "(\<exists>d. fst (loader g args c) = Fulfilled d \<and>
              ((\<exists>e. footerFetch args = Rejected e) \<longrightarrow> data_footer d = Fulfilled Null) \<and>
              ((\<exists>e. get (cart (context' args)) = Rejected e) \<longrightarrow>
                 (\<exists>e'. data_cart d = Rejected e')) \<and>
              ((\<exists>e. isLoggedIn (customerAccount (context' args)) = Rejected e) \<longrightarrow>
                 (\<exists>e'. data_isLoggedIn d = Rejected e'))) \<and>
         snd (loader g args c) =
           (case footerFetch args of Rejected e \<Rightarrow> c @ [e] | _ \<Rightarrow> c)"
proof
  obtain d where d: "fst (loader g args c) = Fulfilled d"
    and dc: "data_cart d = trackPromise ''cart'' (get (cart (context' args)))"
    and dl: "data_isLoggedIn d =
               trackPromise ''isLoggedIn'' (isLoggedIn (customerAccount (context' args)))"
    and df: "data_footer d =
               trackPromise ''footer''
                 (case footerFetch args of Rejected e \<Rightarrow> Fulfilled Null | p \<Rightarrow> p)"
    using loader_fulfilled [OF assms, of g c] by blast
  have "(\<exists>e. footerFetch args = Rejected e) \<longrightarrow> data_footer d = Fulfilled Null"
    using df by (auto simp: trackPromise_value)
  moreover
  have "(\<exists>e. get (cart (context' args)) = Rejected e) \<longrightarrow> (\<exists>e'. data_cart d = Rejected e')"
    using dc by (auto simp: trackPromise_rejected)
  moreover
  have "(\<exists>e. isLoggedIn (customerAccount (context' args)) = Rejected e) \<longrightarrow>
          (\<exists>e'. data_isLoggedIn d = Rejected e')"
    using dl by (auto simp: trackPromise_rejected)
  ultimately
  show "\<exists>d. fst (loader g args c) = Fulfilled d \<and>
              ((\<exists>e. footerFetch args = Rejected e) \<longrightarrow> data_footer d = Fulfilled Null) \<and>
              ((\<exists>e. get (cart (context' args)) = Rejected e) \<longrightarrow>
                 (\<exists>e'. data_cart d = Rejected e')) \<and>
              ((\<exists>e. isLoggedIn (customerAccount (context' args)) = Rejected e) \<longrightarrow>
                 (\<exists>e'. data_isLoggedIn d = Rejected e'))"
    using d by blast
  show "snd (loader g args c) =
          (case footerFetch args of Rejected e \<Rightarrow> c @ [e] | _ \<Rightarrow> c)"
    by (rule loader_console)
qed

text \<open>C3 (amended) with all three deferred fetches failing.\<close>

theorem C3_deferred_amended_witness:
  "headerFetch (exampleArgs (Fulfilled (Str ''menu'')) (Rejected (Str ''down''))
      (Rejected (Str ''cart down'')) (Rejected (Str ''no session'')))
     = Fulfilled (Str ''menu'') \<and>
   footerFetch (exampleArgs (Fulfilled (Str ''menu'')) (Rejected (Str ''down''))
      (Rejected (Str ''cart down'')) (Rejected (Str ''no session'')))
     = Rejected (Str ''down'') \<and>
   get (cart (context' (exampleArgs (Fulfilled (Str ''menu'')) (Rejected (Str ''down''))
      (Rejected (Str ''cart down'')) (Rejected (Str ''no session'')))))
     = Rejected (Str ''cart down'') \<and>
   isLoggedIn (customerAccount (context' (exampleArgs (Fulfilled (Str ''menu''))
      (Rejected (Str ''down'')) (Rejected (Str ''cart down'')) (Rejected (Str ''no session'')))))
     = Rejected (Str ''no session'') \<and>
   (\<exists>d. fst (loader exampleShopAnalytics
               (exampleArgs (Fulfilled (Str ''menu'')) (Rejected (Str ''down''))
                  (Rejected (Str ''cart down'')) (Rejected (Str ''no session''))) [])
          = Fulfilled d \<and>
        data_footer d = Fulfilled Null \<and>
        (\<exists>e'. data_cart d = Rejected e') \<and>
        (\<exists>e'. data_isLoggedIn d = Rejected e')) \<and>
   snd (loader exampleShopAnalytics
          (exampleArgs (Fulfilled (Str ''menu'')) (Rejected (Str ''down''))
             (Rejected (Str ''cart down'')) (Rejected (Str ''no session''))) [])
     = [Str ''down'']"
proof -
  let ?a = "exampleArgs (Fulfilled (Str ''menu'')) (Rejected (Str ''down''))
              (Rejected (Str ''cart down'')) (Rejected (Str ''no session''))"
  have h: "headerFetch ?a = Fulfilled (Str ''menu'')"
    by (simp add: headerFetch_def exampleArgs_def)
  have f: "footerFetch ?a = Rejected (Str ''down'')"
    by (simp add: footerFetch_def exampleArgs_def)
  have c: "get (cart (context' ?a)) = Rejected (Str ''cart down'')"
    by (simp add: exampleArgs_def)
  have l: "isLoggedIn (customerAccount (context' ?a)) = Rejected (Str ''no session'')"
    by (simp add: exampleArgs_def)
  show ?thesis
    using C3_deferred_amended [OF h, of exampleShopAnalytics "[]"]
    unfolding h f c l by simp
qed

section \<open>Error boundary\<close>

text \<open>
  C9. For a route error response the error boundary computes that response's status,
  and the \<open>message\<close> of its data, or the data itself when there is no such message; for
  an \<open>Error\<close> instance, status 500 and the error's message; for any other shape, status
  500 and \<open>Unknown error\<close>. The element returned shows that status, and the message when
  it is truthy.
\<close>

theorem C9_error_boundary:
  "errorStatusAndMessage (ErrorResponse st d) =
     (st, if optProp d ''message'' = Undefined \<or> optProp d ''message'' = Null then d
          else optProp d ''message'') \<and>
   errorStatusAndMessage (ErrorInstance m) = (500, Str m) \<and>
   errorStatusAndMessage (OtherError v) = (500, Str ''Unknown error'') \<and>
   ErrorBoundary error =
     Elem ''div'' [(''className'', ''route-error'')]
       [Elem ''h1'' [] [Expr (Str ''Oops'')],
        Elem ''h2'' [] [Expr (Num (fst (errorStatusAndMessage error)))],
        if truthy (snd (errorStatusAndMessage error))
        then Elem ''fieldset'' [] [Elem ''pre'' [] [Expr (snd (errorStatusAndMessage error))]]
        else Expr (snd (errorStatusAndMessage error))]"
  by (simp add: errorStatusAndMessage_def nullish_def ErrorBoundary_def split: prod.splits)

text \<open>C9 at a 404 response whose data carry a message.\<close>

theorem C9_error_boundary_witness:
  "errorStatusAndMessage (ErrorResponse 404 (Obj [(''message'', Str ''Not found'')])) =
     (404, Str ''Not found'') \<and>
   errorStatusAndMessage (ErrorResponse 503 (Str ''Unavailable'')) = (503, Str ''Unavailable'')"
  using C9_error_boundary [of 404 "Obj [(''message'', Str ''Not found'')]"]
    C9_error_boundary [of 503 "Str ''Unavailable''"]
  by simp

end
